theory Spec2Isabelle
  imports Complex_Main "HOL-Library.Word"
begin

unbundle bit_operations_syntax

section \<open>Errors and messages\<close>

text \<open>
  Python exceptions are values.  A \<open>ValueError\<close> carries the message template of the
  source and the numbers substituted into it.  Messages sent to the toaster (and lines
  written by \<open>print\<close>) are recorded the same way: the template and its arguments.
\<close>

datatype error =
    IndexError
  | ValueError string "nat list"
  | ZeroDivisionError
  | NameError string
  | AttributeError string
  | RuntimeError string

text \<open>
  \<open>replace_global_node(old, new)\<close> belongs to the document class, which is not among the
  sources: a call is recorded as an event, with the block it replaces and what it puts
  there (nothing, a block of the document, or a block the spell has just created, named
  by its class).
\<close>

datatype target = Nothing | Block nat | Created string

datatype event =
    Msg string "int list"
  | Warn string "int list"
  | ReplaceGlobalNode nat target

section \<open>Duplicate-vertex scan (optimizeTriBasedGeom, ``removing duplicate vertices'')\<close>

text \<open>
  The loop of \<open>optimizeTriBasedGeom\<close> that builds \<open>v_map\<close> (old index to new index) and
  \<open>v_map_inverse\<close> (new index to old index) from the vertex hashes.  \<open>k_map\<close> is the
  dictionary from hash to new index, \<open>index\<close> the next new index.  \<open>v_map\<close> is allocated
  with \<open>numVertices\<close> zeros before the loop, so writing \<open>v_map[i]\<close> beyond it raises.
\<close>

record 'h scan =
  v_map :: "nat list"
  v_map_inverse :: "nat list"
  k_map :: "'h \<rightharpoonup> nat"
  index :: nat

definition scan_step :: "'h scan \<Rightarrow> nat \<Rightarrow> 'h \<Rightarrow> error + 'h scan" where
  "scan_step st i vhash =
     (case k_map st vhash of
        None \<Rightarrow>
          if i < length (v_map st)
          then Inr (st\<lparr>k_map := (k_map st)(vhash \<mapsto> index st),
                       v_map := (v_map st)[i := index st],
                       v_map_inverse := v_map_inverse st @ [i],
                       index := index st + 1\<rparr>)
          else Inl IndexError
      | Some k \<Rightarrow>
          if i < length (v_map st)
          then Inr (st\<lparr>v_map := (v_map st)[i := k]\<rparr>)
          else Inl IndexError)"

fun scan_loop :: "'h scan \<Rightarrow> nat \<Rightarrow> 'h list \<Rightarrow> error + 'h scan" where
  "scan_loop st i [] = Inr st"
| "scan_loop st i (vhash # rest) =
     (case scan_step st i vhash of
        Inl e \<Rightarrow> Inl e
      | Inr st' \<Rightarrow> scan_loop st' (i + 1) rest)"

definition scan_init :: "nat \<Rightarrow> 'h scan" where
  "scan_init numVertices =
     \<lparr>v_map = replicate numVertices 0, v_map_inverse = [], k_map = Map.empty, index = 0\<rparr>"

definition remove_duplicate_vertices :: "nat \<Rightarrow> 'h list \<Rightarrow> error + nat list \<times> nat list" where
  "remove_duplicate_vertices numVertices hashes =
     (case scan_loop (scan_init numVertices) 0 hashes of
        Inl e \<Rightarrow> Inl e
      | Inr st \<Rightarrow> Inr (v_map st, v_map_inverse st))"

section \<open>Re-pointing strip and triangle indices (SpellOptimizeGeometry.branchentry)\<close>

text \<open>
  The inner loop over one strip.  \<open>v_map[strip[i]]\<close> raises \<open>IndexError\<close> when the index
  is not below \<open>len(v_map)\<close> (strip entries are unsigned, so Python's negative indexing
  never applies); the handler warns and copies a neighbour.  The neighbour read in the
  handler is itself an indexing operation: \<open>strip[i+1]\<close> raises when the strip has no
  second element, and nothing catches that.
\<close>

function update_strip :: "nat list \<Rightarrow> nat list \<Rightarrow> nat \<Rightarrow> event list \<times> (error + nat list)" where
  "update_strip vmap strip i =
     (if i < length strip then
        (if strip ! i < length vmap then
           update_strip vmap (strip[i := vmap ! (strip ! i)]) (i + 1)
         else
           (let w = Warn ''Corrupt nif: bad vertex index in strip (%i); replacing by valid index which might modify your geometry!'' [int (strip ! i)]
            in if i > 0 then
                 (case update_strip vmap (strip[i := strip ! (i - 1)]) (i + 1) of
                    (ws, r) \<Rightarrow> (w # ws, r))
               else if i + 1 < length strip then
                 (case update_strip vmap (strip[i := strip ! (i + 1)]) (i + 1) of
                    (ws, r) \<Rightarrow> (w # ws, r))
               else ([w], Inl IndexError)))
      else ([], Inr strip))"
  by pat_completeness auto
termination
  by (relation "measure (\<lambda>(vmap, strip, i). length strip - i)") auto

declare update_strip.simps [simp del]

text \<open>The outer loop \<open>for strip in data.points\<close>; the first uncaught error ends it.\<close>

fun update_points :: "nat list \<Rightarrow> nat list list \<Rightarrow> event list \<times> (error + nat list list)" where
  "update_points vmap [] = ([], Inr [])"
| "update_points vmap (strip # rest) =
     (case update_strip vmap strip 0 of
        (ws, Inl e) \<Rightarrow> (ws, Inl e)
      | (ws, Inr strip') \<Rightarrow>
          (case update_points vmap rest of
             (ws', Inl e) \<Rightarrow> (ws @ ws', Inl e)
           | (ws', Inr rest') \<Rightarrow> (ws @ ws', Inr (strip' # rest'))))"

text \<open>Triangles are re-pointed with no handler: a bad index raises.\<close>

fun update_triangles :: "nat list \<Rightarrow> (nat \<times> nat \<times> nat) list \<Rightarrow> error + (nat \<times> nat \<times> nat) list" where
  "update_triangles vmap [] = Inr []"
| "update_triangles vmap ((v1, v2, v3) # rest) =
     (if v1 < length vmap \<and> v2 < length vmap \<and> v3 < length vmap then
        (case update_triangles vmap rest of
           Inl e \<Rightarrow> Inl e
         | Inr rest' \<Rightarrow> Inr ((vmap ! v1, vmap ! v2, vmap ! v3) # rest'))
      else Inl IndexError)"

section \<open>The MOPP codec (bhkMoppBvTreeShape)\<close>


type_synonym vector3 = "real \<times> real \<times> real"


























section \<open>Geometry data and the optimize-geometry spell\<close>

text \<open>
  \<open>NiTriBasedGeomData\<close> with the fields the spell reads and writes.  The index data is
  either a list of strips (\<open>NiTriStripsData.points\<close>), a list of triangles
  (\<open>NiTriShapeData.triangles\<close>) or neither.
\<close>

type_synonym texcoord = "real \<times> real"
type_synonym color4 = "real \<times> real \<times> real \<times> real"

datatype tri_data =
    NiTriStripsData "nat list list"
  | NiTriShapeData "(nat \<times> nat \<times> nat) list"
  | OtherGeometryData

record geometry_data =
  num_vertices :: nat
  has_vertices :: bool
  vertices :: "vector3 list"
  has_normals :: bool
  normals :: "vector3 list"
  uv_sets :: "texcoord list list"
  has_vertex_colors :: bool
  vertex_colors :: "color4 list"
  num_triangles :: nat
  num_uv_sets :: nat
  bs_num_uv_sets :: nat
  tri_data :: tri_data




text \<open>The update of the vertex indices in strips or triangles (lines 339 to 358).\<close>

definition update_indices :: "nat list \<Rightarrow> tri_data \<Rightarrow> event list \<times> (error + tri_data)" where
  "update_indices old_to_new td =
     (case td of
        NiTriStripsData pts \<Rightarrow>
          (case update_points old_to_new pts of
             (ws, Inl e) \<Rightarrow> (ws, Inl e)
           | (ws, Inr pts') \<Rightarrow> (ws, Inr (NiTriStripsData pts')))
      | NiTriShapeData tris \<Rightarrow>
          (case update_triangles old_to_new tris of
             Inl e \<Rightarrow> ([], Inl e)
           | Inr tris' \<Rightarrow> ([], Inr (NiTriShapeData tris')))
      | OtherGeometryData \<Rightarrow> ([], Inr OtherGeometryData))"











section \<open>The optimize-collision-geometry spell\<close>

text \<open>
  What \<open>SpellOptimizeCollisionGeometry.branchentry\<close> tests of a block: its class, the
  class of its \<open>shape\<close>, and for a packed shape the number of vertices of its data and
  the layers of its sub-shapes.
\<close>

datatype shape_kind =
    PackedShape nat nat "nat list"
  | StripsShape nat
  | OtherShape nat






section \<open>The merge-duplicates spell\<close>

text \<open>
  A block as \<open>SpellMergeDuplicates\<close> tests it: identity, whether it is a \<open>NiProperty\<close>
  or a \<open>BSShaderProperty\<close>, and its \<open>controller\<close> link.  \<open>is_interchangeable\<close> is a method
  of the block classes, which are not among the sources: it is the parameter
  \<open>interchangeable\<close>.
\<close>

record merge_block =
  mb_id :: nat
  is_NiProperty :: bool
  is_BSShaderProperty :: bool
  controller :: "nat option"

text \<open>
  The \<open>for otherbranch in self.branches\<close> loop: the first earlier block that is another
  block, is interchangeable, and is not skipped by one of the two \<open>continue\<close>s.
\<close>

fun find_duplicate ::
  "(merge_block \<Rightarrow> merge_block \<Rightarrow> bool) \<Rightarrow> merge_block \<Rightarrow> merge_block list \<Rightarrow> merge_block option" where
  "find_duplicate interchangeable b [] = None"
| "find_duplicate interchangeable b (otherbranch # rest) =
     (if mb_id b \<noteq> mb_id otherbranch \<and> interchangeable b otherbranch then
        (if is_NiProperty b \<and> controller b \<noteq> None then find_duplicate interchangeable b rest
         else if is_BSShaderProperty b then find_duplicate interchangeable b rest
         else Some otherbranch)
      else find_duplicate interchangeable b rest)"

record merge_spell =
  branches :: "merge_block list"
  merge_changed :: bool

definition merge_branchentry ::
  "(merge_block \<Rightarrow> merge_block \<Rightarrow> bool) \<Rightarrow> merge_spell \<Rightarrow> merge_block \<Rightarrow>
     merge_spell \<times> event list \<times> bool" where
  "merge_branchentry interchangeable sp b =
     (case find_duplicate interchangeable b (branches sp) of
        Some otherbranch \<Rightarrow>
          (sp\<lparr>merge_changed := True\<rparr>,
           [Msg ''removing duplicate branch'' [],
            ReplaceGlobalNode (mb_id b) (Block (mb_id otherbranch))],
           False)
      | None \<Rightarrow> (sp\<lparr>branches := branches sp @ [b]\<rparr>, [], True))"

text \<open>
  \<open>SpellMergeDuplicates.datainspect\<close>.  The document is its list of block class names and
  the answer of \<open>header.has_block_type\<close> (a method that is not among the sources: it
  answers, or raises).  Only \<open>ValueError\<close> is caught.
\<close>

record nif_data =
  block_types :: "string list"
  has_block_type :: "string \<Rightarrow> error + bool"

definition datainspect :: "nif_data \<Rightarrow> error + bool" where
  "datainspect d =
     (case has_block_type d ''NiPSysMeshEmitter'' of
        Inr answer \<Rightarrow> Inr (\<not> answer)
      | Inl (ValueError msg args) \<Rightarrow> Inr True
      | Inl e \<Rightarrow> Inl e)"

section \<open>Concrete blocks and documents\<close>






text \<open>
  Blocks for the merge spell: an earlier block, and two later ones that carry a
  controller, one a property and one not.
\<close>

definition earlier_node :: merge_block where
  "earlier_node =
     \<lparr>mb_id = 1, is_NiProperty = False, is_BSShaderProperty = False, controller = Some 8\<rparr>"

definition node_with_controller :: merge_block where
  "node_with_controller =
     \<lparr>mb_id = 2, is_NiProperty = False, is_BSShaderProperty = False, controller = Some 7\<rparr>"

definition property_with_controller :: merge_block where
  "property_with_controller =
     \<lparr>mb_id = 2, is_NiProperty = True, is_BSShaderProperty = False, controller = Some 7\<rparr>"

text \<open>
  Two documents with a particle mesh emitter: one whose header lists its block types,
  one (an older file version) whose header does not, so that the query raises.
\<close>

definition new_version_document :: nif_data where
  "new_version_document =
     \<lparr>block_types = [''NiNode'', ''NiPSysMeshEmitter'', ''NiTriShape''],
      has_block_type = (\<lambda>name. Inr (name \<in> set [''NiNode'', ''NiPSysMeshEmitter'', ''NiTriShape'']))\<rparr>"

definition old_version_document :: nif_data where
  "old_version_document =
     \<lparr>block_types = [''NiNode'', ''NiPSysMeshEmitter'', ''NiTriShape''],
      has_block_type = (\<lambda>name. Inl (ValueError ''header does not store any block types'' []))\<rparr>"

section \<open>Recognized opcodes, forms and decodable buffers\<close>
















section \<open>Proof invariants\<close>

text \<open>The invariant of the duplicate-vertex scan after the hashes \<open>hs\<close> have been read.\<close>

definition scan_inv :: "nat \<Rightarrow> 'h list \<Rightarrow> 'h scan \<Rightarrow> bool" where
  "scan_inv n hs st \<longleftrightarrow>
     length (v_map st) = n \<and>
     index st = length (v_map_inverse st) \<and>
     length (v_map_inverse st) = card (set hs) \<and>
     (\<forall>h. k_map st h = None \<longleftrightarrow> h \<notin> set hs) \<and>
     (\<forall>j < length hs. k_map st (hs ! j) = Some (v_map st ! j)) \<and>
     (\<forall>k < length (v_map_inverse st).
         v_map_inverse st ! k < length hs \<and> v_map st ! (v_map_inverse st ! k) = k \<and>
         hs ! (v_map_inverse st ! k) \<notin> set (take (v_map_inverse st ! k) hs)) \<and>
     (\<forall>j < length hs. v_map st ! j < length (v_map_inverse st)) \<and>
     (\<forall>j < length hs. hs ! j \<notin> set (take j hs) \<longrightarrow>
         v_map st ! j = card (set (take j hs)) \<and> v_map_inverse st ! (v_map st ! j) = j) \<and>
     (\<forall>j. length hs \<le> j \<and> j < n \<longrightarrow> v_map st ! j = 0)"


section \<open>Index-map soundness\<close>

lemma scan_loop_snoc:
  "scan_loop st i (hs @ [h]) =
     (case scan_loop st i hs of Inl e \<Rightarrow> Inl e | Inr st' \<Rightarrow> scan_step st' (i + length hs) h)"
  by (induction hs arbitrary: st i) (auto split: sum.splits)


lemma scan_inv_init: "scan_inv n [] (scan_init n)"
  by (simp add: scan_inv_def scan_init_def)

lemma scan_inv_step_new:
  assumes inv: "scan_inv n hs st" and lt: "length hs < n" and new: "k_map st h = None"
  shows "scan_inv n (hs @ [h])
           (st\<lparr>k_map := (k_map st)(h \<mapsto> index st),
               v_map := (v_map st)[length hs := index st],
               v_map_inverse := v_map_inverse st @ [length hs],
               index := index st + 1\<rparr>)"
proof -
  from inv new have notin: "h \<notin> set hs" by (simp add: scan_inv_def)
  show ?thesis
    using inv lt notin
    unfolding scan_inv_def
    apply (intro conjI)
            apply simp
           apply simp
          apply simp
         apply auto[1]
        apply (auto simp: nth_append nth_list_update less_Suc_eq)[1]
       apply (auto simp: nth_append nth_list_update less_Suc_eq)[1]
      apply (auto simp: nth_append nth_list_update less_Suc_eq)[1]
     apply (auto simp: nth_append nth_list_update less_Suc_eq)[1]
    apply (auto simp: nth_append nth_list_update less_Suc_eq)[1]
    done
qed

lemma scan_inv_step_old:
  assumes inv: "scan_inv n hs st" and lt: "length hs < n" and old: "k_map st h = Some k"
  shows "scan_inv n (hs @ [h]) (st\<lparr>v_map := (v_map st)[length hs := k]\<rparr>)"
proof -
  from inv have "\<forall>h. k_map st h = None \<longleftrightarrow> h \<notin> set hs" by (simp add: scan_inv_def)
  with old have isin: "h \<in> set hs" by (metis option.distinct(1))
  then obtain j where j: "j < length hs" "hs ! j = h" by (auto simp: in_set_conv_nth)
  with inv old have kj: "k = v_map st ! j" by (auto simp: scan_inv_def)
  have ins: "insert h (set hs) = set hs" using isin by auto
  show ?thesis
    using inv lt isin j kj ins
    unfolding scan_inv_def
    apply (intro conjI)
            apply simp
           apply simp
          apply simp
         apply auto[1]
        apply (auto simp: nth_append nth_list_update less_Suc_eq)[1]
       apply (auto simp: nth_append nth_list_update less_Suc_eq)[1]
      apply (auto simp: nth_append nth_list_update less_Suc_eq)[1]
     apply (auto simp: nth_append nth_list_update less_Suc_eq)[1]
    apply (auto simp: nth_append nth_list_update less_Suc_eq)[1]
    done
qed


lemma scan_loop_inv:
  "length hs \<le> n \<Longrightarrow> \<exists>st. scan_loop (scan_init n) 0 hs = Inr st \<and> scan_inv n hs st"
proof (induction hs rule: rev_induct)
  case Nil
  show ?case by (simp add: scan_inv_init)
next
  case (snoc h hs)
  then obtain st where st: "scan_loop (scan_init n) 0 hs = Inr st" "scan_inv n hs st"
    by auto
  from snoc.prems have lt: "length hs < n" by simp
  from st(2) have len: "length (v_map st) = n" unfolding scan_inv_def by blast
  show ?case
  proof (cases "k_map st h")
    case None
    with st lt len scan_inv_step_new [OF st(2) lt None] show ?thesis
      by (simp add: scan_loop_snoc scan_step_def)
  next
    case (Some k)
    with st lt len scan_inv_step_old [OF st(2) lt Some] show ?thesis
      by (simp add: scan_loop_snoc scan_step_def)
  qed
qed


lemma scan_invD:
  assumes "scan_inv n hs st"
  shows "length (v_map st) = n"
    and "\<forall>j < length hs. k_map st (hs ! j) = Some (v_map st ! j)"
    and "\<forall>k < length (v_map_inverse st).
           v_map_inverse st ! k < length hs \<and> v_map st ! (v_map_inverse st ! k) = k"
    and "\<forall>j < length hs. v_map st ! j < length (v_map_inverse st)"
    and "\<forall>j < length hs. hs ! j \<notin> set (take j hs) \<longrightarrow>
           v_map st ! j = card (set (take j hs)) \<and> v_map_inverse st ! (v_map st ! j) = j"
  using assms unfolding scan_inv_def by blast+

text \<open>
  Claim C2 (index-map soundness).  For every sequence of vertex hashes the scan returns
  \<open>old_to_new\<close> (\<open>v_map\<close>) and \<open>new_to_old\<close> (\<open>v_map_inverse\<close>) such that:
  the values of \<open>old_to_new\<close> are exactly the indices of \<open>new_to_old\<close>;
  \<open>old_to_new[new_to_old[i]] = i\<close> for every new index \<open>i\<close>; the first occurrence of a
  hash at position \<open>j\<close> receives the number of distinct hashes seen before \<open>j\<close> as its new
  index (so new indices are handed out in first-seen order) and becomes the representative;
  and every later occurrence of an equal hash is mapped to the same new index.
\<close>

theorem index_map_soundness:
  "\<exists>old_to_new new_to_old.
     remove_duplicate_vertices (length hashes) hashes = Inr (old_to_new, new_to_old) \<and>
     length old_to_new = length hashes \<and>
     set old_to_new = {0..<length new_to_old} \<and>
     (\<forall>i<length new_to_old.
        new_to_old ! i < length hashes \<and> old_to_new ! (new_to_old ! i) = i) \<and>
     (\<forall>j<length hashes. hashes ! j \<notin> set (take j hashes) \<longrightarrow>
        old_to_new ! j = card (set (take j hashes)) \<and> new_to_old ! (old_to_new ! j) = j) \<and>
     (\<forall>i<length hashes. \<forall>j<i. hashes ! j = hashes ! i \<longrightarrow> old_to_new ! i = old_to_new ! j)"
proof -
  obtain st where run: "scan_loop (scan_init (length hashes)) 0 hashes = Inr st"
    and inv: "scan_inv (length hashes) hashes st"
    using scan_loop_inv [of hashes "length hashes"] by auto
  let ?m = "v_map st" and ?r = "v_map_inverse st"
  have res: "remove_duplicate_vertices (length hashes) hashes = Inr (?m, ?r)"
    by (simp add: remove_duplicate_vertices_def run)
  have len: "length ?m = length hashes"
    by (rule scan_invD(1) [OF inv])
  have roundtrip: "\<forall>i<length ?r. ?r ! i < length hashes \<and> ?m ! (?r ! i) = i"
    by (rule scan_invD(3) [OF inv])
  have below: "\<forall>j<length hashes. ?m ! j < length ?r"
    by (rule scan_invD(4) [OF inv])
  have "set ?m = {0..<length ?r}"
  proof (intro equalityI subsetI)
    fix k assume "k \<in> set ?m"
    then obtain j where "j < length ?m" "?m ! j = k" by (auto simp: in_set_conv_nth)
    with below len show "k \<in> {0..<length ?r}" by auto
  next
    fix k assume "k \<in> {0..<length ?r}"
    then have k: "k < length ?r" by simp
    with roundtrip have "?r ! k < length ?m" "?m ! (?r ! k) = k" by (simp_all add: len)
    then show "k \<in> set ?m" by (metis nth_mem)
  qed
  moreover have "\<forall>j<length hashes. hashes ! j \<notin> set (take j hashes) \<longrightarrow>
        ?m ! j = card (set (take j hashes)) \<and> ?r ! (?m ! j) = j"
    by (rule scan_invD(5) [OF inv])
  moreover have "\<forall>i<length hashes. \<forall>j<i. hashes ! j = hashes ! i \<longrightarrow> ?m ! i = ?m ! j"
  proof (intro allI impI)
    fix i j assume i: "i < length hashes" and j: "j < i" and eq: "hashes ! j = hashes ! i"
    have k: "\<forall>j<length hashes. k_map st (hashes ! j) = Some (?m ! j)"
      by (rule scan_invD(2) [OF inv])
    from k i have "k_map st (hashes ! i) = Some (?m ! i)" by simp
    moreover from k i j have "k_map st (hashes ! j) = Some (?m ! j)" by simp
    ultimately show "?m ! i = ?m ! j" using eq by simp
  qed
  ultimately show ?thesis using res len roundtrip by blast
qed

theorem index_map_soundness_witness:
  "remove_duplicate_vertices (length [7, 8, 7, 9 :: nat]) [7, 8, 7, 9 :: nat] = Inr ([0, 1, 0, 2], [0, 1, 3]) \<and>
   set [0, 1, 0, 2 :: nat] = {0..<length [0, 1, 3 :: nat]} \<and>
   [0, 1, 0, 2 :: nat] ! ([0, 1, 3] ! 2) = 2 \<and>
   [0, 1, 0, 2 :: nat] ! 3 = card (set (take 3 [7, 8, 7, 9 :: nat])) \<and>
   [0, 1, 0, 2 :: nat] ! 2 = [0, 1, 0, 2 :: nat] ! 0"
proof -
  let ?hs = "[7, 8, 7, 9 :: nat]"
  have run: "remove_duplicate_vertices (length ?hs) ?hs = Inr ([0, 1, 0, 2], [0, 1, 3])"
    by (simp add: remove_duplicate_vertices_def scan_init_def scan_step_def numeral_eq_Suc)
  from index_map_soundness [of ?hs] obtain m r where
      res: "remove_duplicate_vertices (length ?hs) ?hs = Inr (m, r)"
    and onto: "set m = {0..<length r}"
    and inverse: "\<forall>i<length r. r ! i < length ?hs \<and> m ! (r ! i) = i"
    and first: "\<forall>j<length ?hs. ?hs ! j \<notin> set (take j ?hs) \<longrightarrow>
                  m ! j = card (set (take j ?hs)) \<and> r ! (m ! j) = j"
    and later: "\<forall>i<length ?hs. \<forall>j<i. ?hs ! j = ?hs ! i \<longrightarrow> m ! i = m ! j"
    by blast
  from res run have m: "m = [0, 1, 0, 2]" and r: "r = [0, 1, 3]" by simp_all
  have "(2::nat) < length r" using r by simp
  with inverse have a: "m ! (r ! 2) = 2" by blast
  have "(3::nat) < length ?hs" "?hs ! 3 \<notin> set (take 3 ?hs)" by (simp_all add: numeral_eq_Suc)
  with first have b: "m ! 3 = card (set (take 3 ?hs))" by blast
  have "(2::nat) < length ?hs" "(0::nat) < 2" "?hs ! 0 = ?hs ! 2" by simp_all
  with later have c: "m ! 2 = m ! 0" by metis
  from run onto a b c show ?thesis unfolding m r by blast
qed

section \<open>The MOPP round-trip\<close>

















section \<open>Geometry optimization: the duplicate-vertex scenario\<close>






section \<open>Corrupt strip indices\<close>

text \<open>
  Claim C8 (corrupt strip-index repair), at the input where the code departs from it: a
  strip whose only element is out of range.  The handler warns and then reads
  \<open>strip[i+1]\<close>, which does not exist; the \<open>IndexError\<close> of that read is not caught and
  ends the spell.
\<close>

theorem strip_repair_single_element:
  "update_indices [0, 1, 0, 2] (NiTriStripsData [[5]]) =
     ([Warn ''Corrupt nif: bad vertex index in strip (%i); replacing by valid index which might modify your geometry!'' [5]],
      Inl IndexError)"
  by (simp add: update_indices_def update_strip.simps)

text \<open>
  In a longer strip a bad first element is replaced by the next element as it stands
  before that element is re-pointed: with three new vertices the strip \<open>[9, 3, 1]\<close>
  becomes \<open>[3, 2, 1]\<close>, whose first index is again out of range.
\<close>

lemma strip_repair_first_element:
  "update_indices [0, 1, 0, 2] (NiTriStripsData [[9, 3, 1]]) =
     ([Warn ''Corrupt nif: bad vertex index in strip (%i); replacing by valid index which might modify your geometry!'' [9]],
      Inr (NiTriStripsData [[3, 2, 1]]))"
  by (simp add: update_indices_def update_strip.simps)

section \<open>Degenerate geometry\<close>




section \<open>Merging duplicate branches\<close>

text \<open>
  Claim C6 (controller exclusion), as the code has it.  A \<open>NiProperty\<close> block with a
  controller is never replaced, whatever \<open>is_interchangeable\<close> answers and whatever
  blocks were visited before: it is appended to the visited blocks, no
  \<open>replace_global_node\<close> is called and the recursion goes on.
\<close>

theorem controller_exclusion:
  "is_NiProperty b \<and> controller b \<noteq> None \<longrightarrow>
     merge_branchentry interchangeable sp b = (sp\<lparr>branches := branches sp @ [b]\<rparr>, [], True)"
proof
  assume h: "is_NiProperty b \<and> controller b \<noteq> None"
  have "find_duplicate interchangeable b bs = None" for bs
    using h by (induction bs) auto
  then show "merge_branchentry interchangeable sp b = (sp\<lparr>branches := branches sp @ [b]\<rparr>, [], True)"
    by (simp add: merge_branchentry_def)
qed

theorem controller_exclusion_witness:
  "is_NiProperty property_with_controller \<and> controller property_with_controller \<noteq> None \<and>
   merge_branchentry (\<lambda>a b. True) \<lparr>branches = [earlier_node], merge_changed = False\<rparr> property_with_controller =
     (\<lparr>branches = [earlier_node, property_with_controller], merge_changed = False\<rparr>, [], True)"
proof -
  have h: "is_NiProperty property_with_controller \<and> controller property_with_controller \<noteq> None"
    by (simp add: property_with_controller_def)
  from controller_exclusion [of property_with_controller "\<lambda>a b. True"
        "\<lparr>branches = [earlier_node], merge_changed = False\<rparr>"] h
  show ?thesis by simp
qed

text \<open>
  The claim as stated fails for a block that is not a property: with a controller
  attached and an interchangeable earlier block, it is replaced by that block.
\<close>

theorem controller_exclusion_counterexample:
  "controller node_with_controller \<noteq> None \<and>
   merge_branchentry (\<lambda>a b. True) \<lparr>branches = [earlier_node], merge_changed = False\<rparr> node_with_controller =
     (\<lparr>branches = [earlier_node], merge_changed = True\<rparr>,
      [Msg ''removing duplicate branch'' [], ReplaceGlobalNode 2 (Block 1)], False)"
  by (simp add: merge_branchentry_def node_with_controller_def earlier_node_def)

text \<open>
  Claim C7 (particle-emitter policy skip), as the code has it.  \<open>datainspect\<close> declines
  the document, without raising, exactly when the header answers that it has a
  \<open>NiPSysMeshEmitter\<close> block type; when the header answers no, and also when the query
  raises \<open>ValueError\<close>, the spell runs.
\<close>

theorem emitter_policy:
  "(has_block_type d ''NiPSysMeshEmitter'' = Inr True \<longrightarrow> datainspect d = Inr False) \<and>
   (has_block_type d ''NiPSysMeshEmitter'' = Inr False \<longrightarrow> datainspect d = Inr True) \<and>
   (has_block_type d ''NiPSysMeshEmitter'' = Inl (ValueError msg args) \<longrightarrow> datainspect d = Inr True)"
  by (simp add: datainspect_def)

theorem emitter_policy_witness:
  "has_block_type new_version_document ''NiPSysMeshEmitter'' = Inr True \<and>
   datainspect new_version_document = Inr False \<and>
   has_block_type old_version_document ''NiPSysMeshEmitter''
     = Inl (ValueError ''header does not store any block types'' []) \<and>
   datainspect old_version_document = Inr True"
proof -
  have a: "has_block_type new_version_document ''NiPSysMeshEmitter'' = Inr True"
    by (simp add: new_version_document_def)
  have b: "has_block_type old_version_document ''NiPSysMeshEmitter''
             = Inl (ValueError ''header does not store any block types'' [])"
    by (simp add: old_version_document_def)
  from emitter_policy [of new_version_document] a have "datainspect new_version_document = Inr False"
    by blast
  moreover from emitter_policy [of old_version_document "''header does not store any block types''" "[]"] b
  have "datainspect old_version_document = Inr True" by blast
  ultimately show ?thesis using a b by simp
qed

text \<open>
  The claim as stated fails for a document that contains the emitter but whose header
  cannot say so: the spell is not disabled.
\<close>

theorem emitter_policy_counterexample:
  "''NiPSysMeshEmitter'' \<in> set (block_types old_version_document) \<and>
   datainspect old_version_document = Inr True"
  by (simp add: datainspect_def old_version_document_def)

section \<open>Decoding failures\<close>


























section \<open>Quantisation bounds of the encoder\<close>











end
